theory Spec2Isabelle
  imports Main "HOL-Library.Word"
begin

section \<open>The user service of \<^verbatim>\<open>python_api/main.py\<close>\<close>

text \<open>
  The service is five request handlers over one table, \<^verbatim>\<open>users\<close>, of a PostgreSQL
  database reached through the asyncpg driver. A handler is modelled as a function from
  the committed database before the request to the outcome of the request and the
  committed database after it. Requests are taken one at a time: what two requests do
  when they interleave is not modelled, and the database is always reachable.

  A Python \<^verbatim>\<open>str\<close> is modelled by the bytes of its UTF-8 encoding, a \<^typ>\<open>string\<close>,
  with a lone surrogate, which has no encoding, written as the three bytes that the
  scheme of the encoding gives it (Python's \<^verbatim>\<open>surrogatepass\<close>). The integers of a
  request are Python's, unbounded, a \<^typ>\<open>int\<close>; the key column is PostgreSQL's
  \<^verbatim>\<open>integer\<close>, 32 bits and signed, a \<^typ>\<open>32 word\<close> read by \<^const>\<open>sint\<close>. The
  encoding of the database is UTF-8.
\<close>

subsection \<open>Schemas and the table\<close>

text \<open>
  \<^verbatim>\<open>UserCreate\<close> has the four string fields of the request body. \<^verbatim>\<open>UserDB\<close>, a row of
  the table, has the same four columns and the primary key; \<^verbatim>\<open>UserResponse\<close> is read
  off a row attribute by attribute (\<^verbatim>\<open>orm_mode\<close>), so it is the row.
\<close>

record UserCreate =
  name :: string
  email :: string
  user :: string
  password :: string

record UserDB = UserCreate +
  id' :: "32 word"

type_synonym UserResponse = UserDB

text \<open>\<^verbatim>\<open>UserDB(**user.dict())\<close> with the key the storage gave it.\<close>

definition new_row :: "32 word \<Rightarrow> UserCreate \<Rightarrow> UserDB" where
  "new_row k u =
     \<lparr>name = name u, email = email u, user = user u, password = password u, id' = k\<rparr>"

text \<open>
  The database: the rows of \<^verbatim>\<open>users\<close>, in the order they were inserted, and the next
  value of the sequence behind the \<^verbatim>\<open>Integer\<close> primary key.
\<close>

record database =
  users :: "UserDB list"
  users_id_seq :: int

text \<open>\<^verbatim>\<open>startup\<close>: \<^verbatim>\<open>create_all\<close> on a new database gives the empty table.\<close>

definition startup :: database where
  "startup = \<lparr>users = [], users_id_seq = 1\<rparr>"

text \<open>The values of PostgreSQL's \<^verbatim>\<open>integer\<close>, as Python integers.\<close>

definition int4 :: "int \<Rightarrow> bool" where
  "int4 i \<longleftrightarrow> - 2147483648 \<le> i \<and> i \<le> 2147483647"

subsection \<open>Exceptions\<close>

text \<open>
  The errors the driver and the storage raise for the statements of this program, and
  the exceptions that leave a handler. An error of a statement that no handler catches
  leaves the handler, and the framework answers it with status 500, Internal Server
  Error.
\<close>

datatype db_error =
    UnicodeEncodeError
  | UniqueViolation string
  | CharacterNotInRepertoire
  | ProgramLimitExceeded
  | SequenceGeneratorLimitExceeded
  | DataError
  | InvalidRowCountInResultOffsetClause
  | InvalidRowCountInLimitClause
  | ObjectNotRefreshed

datatype validation_error =
    FieldRequired string
  | StrTypeExpected string

datatype exn =
    HTTPException int string
  | InternalServerError db_error
  | RequestValidationError "validation_error list"

fun status_code :: "exn \<Rightarrow> int" where
  "status_code (HTTPException c d) = c"
| "status_code (InternalServerError e) = 500"
| "status_code (RequestValidationError es) = 422"

subsection \<open>The request body\<close>

text \<open>
  The body of a request is the object its JSON decodes to, a dictionary from member
  names to values. \<^verbatim>\<open>UserCreate\<close> declares four members of type \<^verbatim>\<open>str\<close> and validation
  reads these four and no other. What the validation library accepts as a \<^verbatim>\<open>str\<close>, and
  the string it makes of it, is a parameter, \<open>str_validator\<close>, over any type of values.
\<close>

definition str_field ::
  "('v \<Rightarrow> string option) \<Rightarrow> (string \<rightharpoonup> 'v) \<Rightarrow> string \<Rightarrow> validation_error + string" where
  "str_field str_validator body k =
     (case body k of
        None \<Rightarrow> Inl (FieldRequired k)
      | Some v \<Rightarrow>
          (case str_validator v of
             None \<Rightarrow> Inl (StrTypeExpected k)
           | Some s \<Rightarrow> Inr s))"

definition UserCreate_validate ::
  "('v \<Rightarrow> string option) \<Rightarrow> (string \<rightharpoonup> 'v) \<Rightarrow> validation_error list + UserCreate" where
  "UserCreate_validate str_validator body =
     (let f = str_field str_validator body
      in case (f ''name'', f ''email'', f ''user'', f ''password'') of
           (Inr n, Inr e, Inr u, Inr p) \<Rightarrow>
             Inr \<lparr>name = n, email = e, user = u, password = p\<rparr>
         | (n, e, u, p) \<Rightarrow>
             Inl (concat (map (\<lambda>x. case x of Inl err \<Rightarrow> [err] | Inr _ \<Rightarrow> []) [n, e, u, p])))"

subsection \<open>What the storage takes as a value\<close>

text \<open>
  The driver sends a \<^verbatim>\<open>str\<close> as its UTF-8 encoding and raises on one that has none.
  PostgreSQL has no text value with the character of code 0, and no index entry above the
  size limit of a B-tree page. The three columns \<^verbatim>\<open>name\<close>, \<^verbatim>\<open>email\<close> and \<^verbatim>\<open>user\<close>
  are indexed (\<^verbatim>\<open>index=True\<close>), \<^verbatim>\<open>password\<close> is not. Whether the index entry of a value
  is within the limit depends on how the storage compresses it, so it is a parameter of
  the model, \<open>fits\<close>.
\<close>

text \<open>
  A surrogate is a code point from D800 to DFFF; the three bytes of one are ED, a byte
  from A0 to BF, and one more. In the encoding of any other code point, no byte above
  9F follows ED.
\<close>

fun has_surrogate :: "string \<Rightarrow> bool" where
  "has_surrogate (a # b # s) \<longleftrightarrow>
     a = CHR 0xED \<and> (0xA0 :: nat) \<le> of_char b \<and> of_char b \<le> (0xBF :: nat) \<or>
     has_surrogate (b # s)"
| "has_surrogate s \<longleftrightarrow> False"

definition has_surrogate_value :: "'a UserCreate_scheme \<Rightarrow> bool" where
  "has_surrogate_value u \<longleftrightarrow>
     has_surrogate (name u) \<or> has_surrogate (email u) \<or> has_surrogate (user u) \<or>
     has_surrogate (password u)"

definition has_nul :: "string \<Rightarrow> bool" where
  "has_nul s \<longleftrightarrow> CHR 0x00 \<in> set s"

definition has_nul_value :: "'a UserCreate_scheme \<Rightarrow> bool" where
  "has_nul_value u \<longleftrightarrow>
     has_nul (name u) \<or> has_nul (email u) \<or> has_nul (user u) \<or> has_nul (password u)"

text \<open>The four values are text that the driver can send and the storage can hold.\<close>

definition text_values :: "'a UserCreate_scheme \<Rightarrow> bool" where
  "text_values u \<longleftrightarrow> \<not> has_surrogate_value u \<and> \<not> has_nul_value u"

definition index_rows_fit :: "(string \<Rightarrow> bool) \<Rightarrow> 'a UserCreate_scheme \<Rightarrow> bool" where
  "index_rows_fit fits u \<longleftrightarrow> fits (name u) \<and> fits (email u) \<and> fits (user u)"

subsection \<open>Statements\<close>

text \<open>
  \<^verbatim>\<open>INSERT INTO users (name, email, "user", password) VALUES (...) RETURNING id\<close>.
  A value with no encoding is refused by the driver, and a value with the character of
  code 0 by the storage when it reads the statement's parameters, before anything runs.
  Then the key is drawn from the sequence, whose values go from 1 to the largest
  \<^verbatim>\<open>integer\<close>; a value once drawn is not given back. Then the row's entries go into
  the indexes, each of which may refuse it.
\<close>

definition INSERT ::
  "(string \<Rightarrow> bool) \<Rightarrow> UserCreate \<Rightarrow> database \<Rightarrow> (db_error + UserDB) \<times> database" where
  "INSERT fits u db =
     (if has_surrogate_value u then (Inl UnicodeEncodeError, db)
      else if has_nul_value u then (Inl CharacterNotInRepertoire, db)
      else if users_id_seq db < 1 \<or> 2147483647 < users_id_seq db
        then (Inl SequenceGeneratorLimitExceeded, db)
      else
        (let k = word_of_int (users_id_seq db);
             db1 = db\<lparr>users_id_seq := users_id_seq db + 1\<rparr>
         in if \<exists>r \<in> set (users db). id' r = k
              then (Inl (UniqueViolation ''users_pkey''), db1)
            else if \<not> index_rows_fit fits u
              then (Inl ProgramLimitExceeded, db1)
            else if \<exists>r \<in> set (users db). email r = email u
              then (Inl (UniqueViolation ''ix_users_email''), db1)
            else if \<exists>r \<in> set (users db). user r = user u
              then (Inl (UniqueViolation ''ix_users_user''), db1)
            else (Inr (new_row k u), db1\<lparr>users := users db @ [new_row k u]\<rparr>)))"

text \<open>
  \<^verbatim>\<open>SELECT ... FROM users LIMIT limit OFFSET skip\<close>. The driver encodes the two
  parameters as integers of a fixed width and raises on a value it cannot encode; the
  width is the library's choice, so the largest value, \<open>rowcount_max\<close>, is a parameter.
  PostgreSQL refuses a negative offset and a negative limit. The statement has no
  \<^verbatim>\<open>ORDER BY\<close>: the rows come in the order of the storage's scan of the table, which
  the program does not choose, so it is a parameter too, \<open>scan\<close>, from the rows of the
  table to the rows as the scan returns them.
\<close>

definition SELECT_page ::
  "int \<Rightarrow> (UserDB list \<Rightarrow> UserDB list) \<Rightarrow> int \<Rightarrow> int \<Rightarrow> database \<Rightarrow> db_error + UserDB list" where
  "SELECT_page rowcount_max scan skip limit db =
     (if skip < - rowcount_max - 1 \<or> rowcount_max < skip \<or>
         limit < - rowcount_max - 1 \<or> rowcount_max < limit
        then Inl DataError
      else if skip < 0 then Inl InvalidRowCountInResultOffsetClause
      else if limit < 0 then Inl InvalidRowCountInLimitClause
      else Inr (take (nat limit) (drop (nat skip) (scan (users db)))))"

text \<open>
  \<^verbatim>\<open>SELECT ... FROM users WHERE users.id = user_id\<close>, then \<^verbatim>\<open>.scalars().first()\<close>.
  The parameter is compared with an \<^verbatim>\<open>integer\<close> column, and the driver raises on a
  Python integer that is not one, before the query runs.
\<close>

definition SELECT_first :: "int \<Rightarrow> database \<Rightarrow> db_error + UserDB option" where
  "SELECT_first user_id db =
     (if int4 user_id
        then Inr (find (\<lambda>r. id' r = word_of_int user_id) (users db))
      else Inl DataError)"

text \<open>
  \<^verbatim>\<open>UPDATE users SET name=..., email=..., "user"=..., password=... WHERE users.id = ...\<close>
  for the row object \<open>row\<close>.
\<close>

definition UPDATE :: "(string \<Rightarrow> bool) \<Rightarrow> UserDB \<Rightarrow> database \<Rightarrow> db_error + database" where
  "UPDATE fits row db =
     (if has_surrogate_value row then Inl UnicodeEncodeError
      else if has_nul_value row then Inl CharacterNotInRepertoire
      else if \<not> index_rows_fit fits row then Inl ProgramLimitExceeded
      else if \<exists>r \<in> set (users db). id' r \<noteq> id' row \<and> email r = email row
        then Inl (UniqueViolation ''ix_users_email'')
      else if \<exists>r \<in> set (users db). id' r \<noteq> id' row \<and> user r = user row
        then Inl (UniqueViolation ''ix_users_user'')
      else Inr (db\<lparr>users := map (\<lambda>r. if id' r = id' row then row else r) (users db)\<rparr>))"

text \<open>
  When the \<^verbatim>\<open>UPDATE\<close> of the row of key \<open>k\<close> to the values of \<open>u\<close> is refused.
\<close>

definition update_refused :: "(string \<Rightarrow> bool) \<Rightarrow> 32 word \<Rightarrow> UserCreate \<Rightarrow> database \<Rightarrow> bool" where
  "update_refused fits k u db \<longleftrightarrow>
     \<not> text_values u \<or> \<not> index_rows_fit fits u \<or>
     (\<exists>r \<in> set (users db). id' r \<noteq> k \<and> (email r = email u \<or> user r = user u))"

text \<open>\<^verbatim>\<open>DELETE FROM users WHERE users.id = ...\<close>, for the key of a row object.\<close>

definition DELETE :: "32 word \<Rightarrow> database \<Rightarrow> database" where
  "DELETE k db = db\<lparr>users := filter (\<lambda>r. id' r \<noteq> k) (users db)\<rparr>"

text \<open>
  \<^verbatim>\<open>ROLLBACK\<close>, and the rollback of a session closed with its transaction open: the
  table is again what it was when the transaction began (\<open>before\<close>); the sequence keeps
  its value.
\<close>

definition ROLLBACK :: "database \<Rightarrow> database \<Rightarrow> database" where
  "ROLLBACK before now = now\<lparr>users := users before\<rparr>"

text \<open>\<^verbatim>\<open>db.refresh(obj)\<close>: reads the row of \<open>obj\<close>'s key again, and raises when it is gone.\<close>

definition refresh :: "UserDB \<Rightarrow> database \<Rightarrow> db_error + UserDB" where
  "refresh obj db =
     (case find (\<lambda>r. id' r = id' obj) (users db) of
        None \<Rightarrow> Inl ObjectNotRefreshed
      | Some r \<Rightarrow> Inr r)"

subsection \<open>Handlers\<close>

text \<open>
  A handler's outcome is the exception that left it or the status of its decorator with
  the value it returned.
\<close>

type_synonym 'a outcome = "(exn + int \<times> 'a) \<times> database"

text \<open>\<^verbatim>\<open>POST /users\<close>, status 201. Every exception of commit and refresh is caught.\<close>

definition create_user ::
  "(string \<Rightarrow> bool) \<Rightarrow> UserCreate \<Rightarrow> database \<Rightarrow> UserResponse outcome" where
  "create_user fits u db =
     (case INSERT fits u db of
        (Inl e, db1) \<Rightarrow>
          (Inl (HTTPException 400 ''User or Email already exists''), ROLLBACK db db1)
      | (Inr new_user, db1) \<Rightarrow>
          (case refresh new_user db1 of
             Inl e \<Rightarrow> (Inl (HTTPException 400 ''User or Email already exists''), db1)
           | Inr r \<Rightarrow> (Inr (201, r), db1)))"

text \<open>
  The route as the framework runs it: the body is validated against \<^verbatim>\<open>UserCreate\<close>,
  the parameter's annotation, before the handler is called.
\<close>

definition POST_users ::
  "('v \<Rightarrow> string option) \<Rightarrow> (string \<Rightarrow> bool) \<Rightarrow> (string \<rightharpoonup> 'v) \<Rightarrow> database \<Rightarrow>
     UserResponse outcome" where
  "POST_users str_validator fits body db =
     (case UserCreate_validate str_validator body of
        Inl errs \<Rightarrow> (Inl (RequestValidationError errs), db)
      | Inr u \<Rightarrow> create_user fits u db)"

text \<open>\<^verbatim>\<open>GET /users\<close>. Nothing catches what the query raises.\<close>

definition read_users ::
  "int \<Rightarrow> (UserDB list \<Rightarrow> UserDB list) \<Rightarrow> int \<Rightarrow> int \<Rightarrow> database \<Rightarrow>
     UserResponse list outcome" where
  "read_users rowcount_max scan skip limit db =
     (case SELECT_page rowcount_max scan skip limit db of
        Inl e \<Rightarrow> (Inl (InternalServerError e), db)
      | Inr rs \<Rightarrow> (Inr (200, rs), db))"

text \<open>\<^verbatim>\<open>GET /users/{user_id}\<close>. Nothing catches what the query raises.\<close>

definition read_user :: "int \<Rightarrow> database \<Rightarrow> UserResponse outcome" where
  "read_user user_id db =
     (case SELECT_first user_id db of
        Inl e \<Rightarrow> (Inl (InternalServerError e), db)
      | Inr None \<Rightarrow> (Inl (HTTPException 404 ''User not found''), db)
      | Inr (Some u) \<Rightarrow> (Inr (200, u), db))"

text \<open>
  \<^verbatim>\<open>PUT /users/{user_id}\<close>. Nothing catches what the query or the commit raises: the
  exception leaves the handler, and the session is closed, which rolls its transaction
  back.
\<close>

definition update_user ::
  "(string \<Rightarrow> bool) \<Rightarrow> int \<Rightarrow> UserCreate \<Rightarrow> database \<Rightarrow> UserResponse outcome" where
  "update_user fits user_id user_update' db =
     (case SELECT_first user_id db of
        Inl e \<Rightarrow> (Inl (InternalServerError e), db)
      | Inr None \<Rightarrow> (Inl (HTTPException 404 ''User not found''), db)
      | Inr (Some db_user) \<Rightarrow>
          (let db_user1 = db_user\<lparr>name := name user_update', email := email user_update',
                                  user := user user_update', password := password user_update'\<rparr>
           in case UPDATE fits db_user1 db of
                Inl e \<Rightarrow> (Inl (InternalServerError e), ROLLBACK db db)
              | Inr db1 \<Rightarrow>
                  (case refresh db_user1 db1 of
                     Inl e \<Rightarrow> (Inl (InternalServerError e), db1)
                   | Inr r \<Rightarrow> (Inr (200, r), db1))))"

text \<open>\<^verbatim>\<open>DELETE /users/{user_id}\<close>. Nothing catches what the query raises.\<close>

definition delete_user :: "int \<Rightarrow> database \<Rightarrow> (string \<times> string) list outcome" where
  "delete_user user_id db =
     (case SELECT_first user_id db of
        Inl e \<Rightarrow> (Inl (InternalServerError e), db)
      | Inr None \<Rightarrow> (Inl (HTTPException 404 ''User not found''), db)
      | Inr (Some db_user) \<Rightarrow>
          (Inr (200, [(''message'', ''User deleted successfully'')]), DELETE (id' db_user) db))"

subsection \<open>The states the service reaches\<close>

text \<open>
  What the table's constraints and the sequence keep true of the database: keys, emails
  and handles are each unique, and every key was drawn from the sequence, which began
  at 1.
\<close>

definition unique_db :: "database \<Rightarrow> bool" where
  "unique_db db \<longleftrightarrow>
     distinct (map id' (users db)) \<and> distinct (map email (users db)) \<and>
     distinct (map user (users db)) \<and>
     (\<forall>r \<in> set (users db). sint (id' r) < users_id_seq db) \<and> 1 \<le> users_id_seq db"

text \<open>A request to one of the five routes, and the database it leaves.\<close>

datatype request =
    Create UserCreate
  | List int int
  | Get int
  | Update int UserCreate
  | Delete int

fun serve ::
  "(string \<Rightarrow> bool) \<Rightarrow> int \<Rightarrow> (UserDB list \<Rightarrow> UserDB list) \<Rightarrow> database \<Rightarrow> request \<Rightarrow>
     database" where
  "serve fits rowcount_max scan db (Create u) = snd (create_user fits u db)"
| "serve fits rowcount_max scan db (List skip limit) =
     snd (read_users rowcount_max scan skip limit db)"
| "serve fits rowcount_max scan db (Get user_id) = snd (read_user user_id db)"
| "serve fits rowcount_max scan db (Update user_id u) = snd (update_user fits user_id u db)"
| "serve fits rowcount_max scan db (Delete user_id) = snd (delete_user user_id db)"

subsection \<open>Example data\<close>

text \<open>
  A user, \<open>ann\<close>; a request with her email and another handle, \<open>ann2\<close>; a second
  user, \<open>bob\<close>; new values for him that keep his email, \<open>rob\<close>; three requests
  that the storage does not take, with the character of code 0 in the name, with the
  surrogate D800 as the name, and with an email of 3006 bytes; the database after
  \<open>ann\<close> and \<open>bob\<close> were created; and three users more. For the parameter \<open>fits\<close>: index entries of at most 2000 bytes,
  which are within the limit however they compress.
\<close>

definition ann :: UserCreate where
  "ann = \<lparr>name = ''Ann'', email = ''a@x.com'', user = ''ann1'', password = ''p''\<rparr>"

definition ann2 :: UserCreate where
  "ann2 = \<lparr>name = ''Ann B'', email = ''a@x.com'', user = ''ann2'', password = ''r''\<rparr>"

definition bob :: UserCreate where
  "bob = \<lparr>name = ''Bob'', email = ''b@x.com'', user = ''bob1'', password = ''q''\<rparr>"

definition rob :: UserCreate where
  "rob = \<lparr>name = ''Rob'', email = ''b@x.com'', user = ''rob1'', password = ''s''\<rparr>"

definition nul_req :: UserCreate where
  "nul_req =
     \<lparr>name = [CHR ''A'', CHR 0x00], email = ''n@x.com'', user = ''nul1'', password = ''p''\<rparr>"

definition sur_req :: UserCreate where
  "sur_req =
     \<lparr>name = [CHR 0xED, CHR 0xA0, CHR 0x80], email = ''s@x.com'', user = ''sur1'',
      password = ''p''\<rparr>"

definition long_req :: UserCreate where
  "long_req =
     \<lparr>name = ''Lee'', email = replicate 3000 (CHR ''l'') @ ''@x.com'', user = ''lee1'',
      password = ''p''\<rparr>"

definition db_ann_bob :: database where
  "db_ann_bob = \<lparr>users = [new_row 1 ann, new_row 2 bob], users_id_seq = 3\<rparr>"

definition fits2000 :: "string \<Rightarrow> bool" where
  "fits2000 s \<longleftrightarrow> length s \<le> 2000"






text \<open>
  JSON values for the members of a body, a validator that takes a JSON string and
  nothing else as a \<^verbatim>\<open>str\<close>, and a body for \<open>ann\<close> that has an \<^verbatim>\<open>id\<close> member as well.
\<close>

datatype json = JSON_string string | JSON_number int

fun strict_str :: "json \<Rightarrow> string option" where
  "strict_str (JSON_string s) = Some s"
| "strict_str (JSON_number n) = None"

definition body_ann :: "string \<rightharpoonup> json" where
  "body_ann =
     [''name'' \<mapsto> JSON_string ''Ann'', ''email'' \<mapsto> JSON_string ''a@x.com'',
      ''user'' \<mapsto> JSON_string ''ann1'', ''password'' \<mapsto> JSON_string ''p'']"

lemmas example_defs =
  ann_def ann2_def bob_def rob_def nul_req_def sur_req_def long_req_def db_ann_bob_def
  startup_def new_row_def
  fits2000_def text_values_def has_surrogate_value_def has_nul_value_def has_nul_def
  index_rows_fit_def

section \<open>Properties\<close>

subsection \<open>Keys\<close>

lemma key_sint: "int4 i \<Longrightarrow> sint (word_of_int i :: 32 word) = i"
  by (simp add: int4_def sint_sbintrunc' signed_take_bit_int_eq_self)

lemma sint_int4: "int4 (sint (w :: 32 word))"
  using sint_ge [of w] sint_lt [of w] by (simp add: int4_def)

lemma key_eq: "int4 i \<Longrightarrow> (w = (word_of_int i :: 32 word)) \<longleftrightarrow> sint w = i"
  using key_sint by auto

lemma key_of_sint: "sint w = i \<Longrightarrow> (word_of_int i :: 32 word) = w"
  by auto

subsection \<open>Lookups by key\<close>

lemma find_key_None: "find (\<lambda>r. id' r = k) rs = None \<longleftrightarrow> (\<forall>r \<in> set rs. id' r \<noteq> k)"
  by (auto simp: find_None_iff)

lemma find_key_Some: "find (\<lambda>r. id' r = k) rs = Some r \<Longrightarrow> r \<in> set rs \<and> id' r = k"
  by (auto simp: find_Some_iff)

lemma find_append_new:
  "\<forall>r \<in> set rs. id' r \<noteq> k \<Longrightarrow> id' x = k \<Longrightarrow> find (\<lambda>r. id' r = k) (rs @ [x]) = Some x"
  by (induction rs) auto

lemma find_key_found:
  assumes "\<exists>r \<in> set rs. id' r = k"
  shows "\<exists>r. find (\<lambda>r. id' r = k) rs = Some r \<and> r \<in> set rs \<and> id' r = k"
proof (cases "find (\<lambda>r. id' r = k) rs")
  case None
  then have "\<forall>r \<in> set rs. id' r \<noteq> k"
    by (simp add: find_key_None)
  with assms show ?thesis
    by blast
next
  case (Some r)
  with find_key_Some [OF Some] show ?thesis
    by blast
qed

lemma find_map_replaced:
  "\<exists>r \<in> set rs. id' r = k \<Longrightarrow> id' row = k \<Longrightarrow>
   find (\<lambda>r. id' r = k) (map (\<lambda>r. if id' r = k then row else r) rs) = Some row"
  by (induction rs) auto

lemma filter_others_map:
  "id' row = k \<Longrightarrow>
   filter (\<lambda>r. id' r \<noteq> k) (map (\<lambda>r. if id' r = k then row else r) rs) =
   filter (\<lambda>r. id' r \<noteq> k) rs"
  by (induction rs) auto

lemma map_id_replaced:
  "id' row = k \<Longrightarrow> map id' (map (\<lambda>r. if id' r = k then row else r) rs) = map id' rs"
  by (induction rs) auto

lemma new_row_sel:
  "id' (new_row k u) = k" "name (new_row k u) = name u" "email (new_row k u) = email u"
  "user (new_row k u) = user u" "password (new_row k u) = password u"
  by (simp_all add: new_row_def)

lemma new_row_values:
  "has_surrogate_value (new_row k u) = has_surrogate_value u"
  "has_nul_value (new_row k u) = has_nul_value u"
  "text_values (new_row k u) = text_values u"
  "index_rows_fit fits (new_row k u) = index_rows_fit fits u"
  by (simp_all add: text_values_def has_surrogate_value_def has_nul_value_def index_rows_fit_def
      new_row_sel)

lemma replaced_row:
  "(r::UserDB)\<lparr>name := name u, email := email u, user := user u, password := password u\<rparr>
     = new_row (id' r) u"
  unfolding new_row_def by (cases r) simp

subsection \<open>The select by key\<close>

lemma SELECT_first_out_of_range: "\<not> int4 i \<Longrightarrow> SELECT_first i db = Inl DataError"
  by (simp add: SELECT_first_def)

lemma SELECT_first_missing:
  assumes "int4 i" and "\<forall>r \<in> set (users db). sint (id' r) \<noteq> i"
  shows "SELECT_first i db = Inr None"
proof -
  from assms have "\<forall>r \<in> set (users db). id' r \<noteq> word_of_int i"
    using key_sint by fastforce
  then have "find (\<lambda>r. id' r = word_of_int i) (users db) = None"
    by (simp add: find_key_None)
  with assms(1) show ?thesis
    by (simp add: SELECT_first_def)
qed

lemma SELECT_first_found:
  assumes "\<exists>r \<in> set (users db). sint (id' r) = i"
  shows "\<exists>r. SELECT_first i db = Inr (Some r) \<and> r \<in> set (users db) \<and>
             id' r = word_of_int i \<and> sint (id' r) = i"
proof -
  from assms obtain r0 where r0: "r0 \<in> set (users db)" "sint (id' r0) = i"
    by blast
  then have range: "int4 i"
    using sint_int4 [of "id' r0"] by simp
  from r0 have "id' r0 = word_of_int i"
    by auto
  with r0(1) have "\<exists>r \<in> set (users db). id' r = word_of_int i"
    by blast
  from find_key_found [OF this] obtain r
    where r: "find (\<lambda>r. id' r = word_of_int i) (users db) = Some r" "r \<in> set (users db)"
      "id' r = word_of_int i"
    by blast
  from r(3) range have "sint (id' r) = i"
    by (simp add: key_sint)
  with r range show ?thesis
    by (simp add: SELECT_first_def)
qed

subsection \<open>The results of a create\<close>

lemma ROLLBACK_users: "users (ROLLBACK before now) = users before"
  by (simp add: ROLLBACK_def)

lemma ROLLBACK_same: "ROLLBACK db db = db"
  by (simp add: ROLLBACK_def)

lemma INSERT_refused_users:
  "INSERT fits u db = (Inl e, db1) \<Longrightarrow> users db1 = users db"
  by (auto simp: INSERT_def text_values_def Let_def split: if_splits)

lemma INSERT_accepted:
  assumes "INSERT fits u db = (Inr row, db1)"
  shows "row = new_row (word_of_int (users_id_seq db)) u \<and>
         db1 = db\<lparr>users_id_seq := users_id_seq db + 1,
                  users := users db @ [new_row (word_of_int (users_id_seq db)) u]\<rparr> \<and>
         text_values u \<and> index_rows_fit fits u \<and> 1 \<le> users_id_seq db \<and> users_id_seq db \<le> 2147483647 \<and>
         (\<forall>r \<in> set (users db). id' r \<noteq> word_of_int (users_id_seq db)) \<and>
         (\<forall>r \<in> set (users db). email r \<noteq> email u \<and> user r \<noteq> user u)"
  using assms by (auto simp: INSERT_def text_values_def Let_def split: if_splits)

lemma INSERT_fresh:
  assumes "text_values u" and "index_rows_fit fits u" and "1 \<le> users_id_seq db \<and> users_id_seq db \<le> 2147483647"
    and "\<forall>r \<in> set (users db). id' r \<noteq> word_of_int (users_id_seq db)"
    and "\<forall>r \<in> set (users db). email r \<noteq> email u \<and> user r \<noteq> user u"
  shows "INSERT fits u db =
     (Inr (new_row (word_of_int (users_id_seq db)) u),
      db\<lparr>users_id_seq := users_id_seq db + 1,
         users := users db @ [new_row (word_of_int (users_id_seq db)) u]\<rparr>)"
  using assms by (auto simp: INSERT_def text_values_def Let_def)

lemma INSERT_collide:
  assumes "\<exists>r \<in> set (users db). email r = email u \<or> user r = user u"
  shows "\<exists>e db1. INSERT fits u db = (Inl e, db1)"
  using assms by (auto simp: INSERT_def text_values_def Let_def)

lemma refresh_inserted:
  assumes "\<forall>r \<in> set rs. id' r \<noteq> id' row"
  shows "refresh row (db\<lparr>users_id_seq := n, users := rs @ [row]\<rparr>) = Inr row"
  using find_append_new [OF assms refl] by (simp add: refresh_def)

lemma create_user_refused:
  assumes "INSERT fits u db = (Inl e, db1)"
  shows "fst (create_user fits u db) = Inl (HTTPException 400 ''User or Email already exists'')"
    and "users (snd (create_user fits u db)) = users db"
  using assms by (simp_all add: create_user_def ROLLBACK_users)

lemma create_user_accepted:
  assumes "INSERT fits u db = (Inr row, db1)"
  shows "create_user fits u db = (Inr (201, row), db1)"
proof -
  from INSERT_accepted [OF assms]
  have row: "row = new_row (word_of_int (users_id_seq db)) u"
    and db1: "db1 = db\<lparr>users_id_seq := users_id_seq db + 1, users := users db @ [row]\<rparr>"
    and fresh: "\<forall>r \<in> set (users db). id' r \<noteq> id' row"
    by (simp_all add: new_row_sel)
  have "refresh row db1 = Inr row"
    unfolding db1 using fresh by (rule refresh_inserted)
  with assms show ?thesis
    by (simp add: create_user_def)
qed

lemma create_user_cases:
  "(fst (create_user fits u db) = Inl (HTTPException 400 ''User or Email already exists'') \<and>
    users (snd (create_user fits u db)) = users db)
   \<or> (create_user fits u db =
       (Inr (201, new_row (word_of_int (users_id_seq db)) u),
        db\<lparr>users_id_seq := users_id_seq db + 1,
           users := users db @ [new_row (word_of_int (users_id_seq db)) u]\<rparr>) \<and>
      text_values u \<and> index_rows_fit fits u \<and> 1 \<le> users_id_seq db \<and> users_id_seq db \<le> 2147483647 \<and>
      (\<forall>r \<in> set (users db). id' r \<noteq> word_of_int (users_id_seq db)) \<and>
      (\<forall>r \<in> set (users db). email r \<noteq> email u \<and> user r \<noteq> user u))"
proof (cases "INSERT fits u db")
  case (Pair res db1)
  show ?thesis
  proof (cases res)
    case (Inl e)
    with Pair create_user_refused [of fits u db e db1] show ?thesis
      by simp
  next
    case (Inr row)
    with Pair have ins: "INSERT fits u db = (Inr row, db1)"
      by simp
    from create_user_accepted [OF ins] INSERT_accepted [OF ins] show ?thesis
      by simp
  qed
qed

lemma create_user_collide:
  assumes "\<exists>r \<in> set (users db). email r = email u \<or> user r = user u"
  shows "fst (create_user fits u db) = Inl (HTTPException 400 ''User or Email already exists'') \<and>
         users (snd (create_user fits u db)) = users db"
proof -
  from INSERT_collide [OF assms] obtain e db1 where "INSERT fits u db = (Inl e, db1)"
    by blast
  from create_user_refused [OF this] show ?thesis
    by simp
qed

lemma create_user_fresh:
  assumes "text_values u" and "index_rows_fit fits u" and "1 \<le> users_id_seq db \<and> users_id_seq db \<le> 2147483647"
    and "\<forall>r \<in> set (users db). id' r \<noteq> word_of_int (users_id_seq db)"
    and "\<forall>r \<in> set (users db). email r \<noteq> email u \<and> user r \<noteq> user u"
  shows "create_user fits u db =
     (Inr (201, new_row (word_of_int (users_id_seq db)) u),
      db\<lparr>users_id_seq := users_id_seq db + 1,
         users := users db @ [new_row (word_of_int (users_id_seq db)) u]\<rparr>)"
  by (rule create_user_accepted) (rule INSERT_fresh [OF assms])

subsection \<open>Get and Delete by key\<close>

lemma read_user_out_of_range:
  "\<not> int4 i \<Longrightarrow> read_user i db = (Inl (InternalServerError DataError), db)"
  by (simp add: read_user_def SELECT_first_out_of_range)

lemma read_user_missing:
  "int4 i \<Longrightarrow> \<forall>r \<in> set (users db). sint (id' r) \<noteq> i \<Longrightarrow>
   read_user i db = (Inl (HTTPException 404 ''User not found''), db)"
  by (simp add: read_user_def SELECT_first_missing)

lemma read_user_found:
  assumes "\<exists>r \<in> set (users db). sint (id' r) = i"
  shows "\<exists>r \<in> set (users db). sint (id' r) = i \<and> read_user i db = (Inr (200, r), db)"
proof -
  from SELECT_first_found [OF assms] obtain r
    where "SELECT_first i db = Inr (Some r)" "r \<in> set (users db)" "sint (id' r) = i"
    by blast
  then show ?thesis
    by (auto simp: read_user_def)
qed

lemma read_user_last:
  assumes "\<forall>r \<in> set rs. id' r \<noteq> id' row"
  shows "read_user (sint (id' row)) (db\<lparr>users_id_seq := n, users := rs @ [row]\<rparr>) =
     (Inr (200, row), db\<lparr>users_id_seq := n, users := rs @ [row]\<rparr>)"
  using find_append_new [OF assms refl] sint_int4 [of "id' row"]
  by (simp add: read_user_def SELECT_first_def)

lemma delete_user_missing:
  "int4 i \<Longrightarrow> \<forall>r \<in> set (users db). sint (id' r) \<noteq> i \<Longrightarrow>
   delete_user i db = (Inl (HTTPException 404 ''User not found''), db)"
  by (simp add: delete_user_def SELECT_first_missing)

lemma filter_key_sint:
  "int4 i \<Longrightarrow> filter (\<lambda>r. id' r \<noteq> word_of_int i) rs = filter (\<lambda>r. sint (id' r) \<noteq> i) rs"
  by (rule filter_cong) (auto simp: key_eq)

lemma delete_user_found:
  assumes "\<exists>r \<in> set (users db). sint (id' r) = i"
  shows "delete_user i db =
     (Inr (200, [(''message'', ''User deleted successfully'')]),
      db\<lparr>users := filter (\<lambda>r. sint (id' r) \<noteq> i) (users db)\<rparr>)"
proof -
  from SELECT_first_found [OF assms] obtain r
    where r: "SELECT_first i db = Inr (Some r)" "id' r = word_of_int i" "sint (id' r) = i"
    by blast
  from r(3) have "int4 i"
    using sint_int4 [of "id' r"] by simp
  then show ?thesis
    using r by (simp add: delete_user_def DELETE_def filter_key_sint)
qed

subsection \<open>The results of an update\<close>

lemma update_user_out_of_range:
  "\<not> int4 i \<Longrightarrow> update_user fits i u db = (Inl (InternalServerError DataError), db)"
  by (simp add: update_user_def SELECT_first_out_of_range)

lemma update_user_missing:
  "int4 i \<Longrightarrow> \<forall>r \<in> set (users db). sint (id' r) \<noteq> i \<Longrightarrow>
   update_user fits i u db = (Inl (HTTPException 404 ''User not found''), db)"
  by (simp add: update_user_def SELECT_first_missing)

lemma update_user_found:
  assumes "SELECT_first i db = Inr (Some r0)" and "id' r0 = k"
  shows "update_user fits i u db =
     (case UPDATE fits (new_row k u) db of
        Inl e \<Rightarrow> (Inl (InternalServerError e), db)
      | Inr db1 \<Rightarrow>
          (case refresh (new_row k u) db1 of
             Inl e \<Rightarrow> (Inl (InternalServerError e), db1)
           | Inr r \<Rightarrow> (Inr (200, r), db1)))"
proof -
  have eq: "r0\<lparr>name := name u, email := email u, user := user u, password := password u\<rparr>
     = new_row k u"
    using replaced_row [where r = r0 and u = u] assms(2) by simp
  show ?thesis
    unfolding update_user_def assms(1) sum.case option.case Let_def ROLLBACK_same eq
    by (rule refl)
qed

lemma UPDATE_refused:
  assumes "update_refused fits k u db"
  shows "\<exists>e. UPDATE fits (new_row k u) db = Inl e"
  using assms unfolding update_refused_def UPDATE_def text_values_def new_row_sel new_row_values by auto

lemma UPDATE_accepted:
  assumes "\<not> update_refused fits k u db"
  shows "UPDATE fits (new_row k u) db =
     Inr (db\<lparr>users := map (\<lambda>r. if id' r = k then new_row k u else r) (users db)\<rparr>)"
  using assms unfolding update_refused_def UPDATE_def text_values_def new_row_sel new_row_values by auto

lemma refresh_replaced:
  assumes "\<exists>r \<in> set (users db). id' r = k"
  shows "refresh (new_row k u)
            (db\<lparr>users := map (\<lambda>r. if id' r = k then new_row k u else r) (users db)\<rparr>) =
          Inr (new_row k u)"
  using find_map_replaced [OF assms new_row_sel(1), of u]
  by (simp add: refresh_def new_row_sel)

lemma update_user_refused:
  assumes "\<exists>r \<in> set (users db). sint (id' r) = i"
    and "update_refused fits (word_of_int i) u db"
  shows "\<exists>e. update_user fits i u db = (Inl (InternalServerError e), db)"
proof -
  from SELECT_first_found [OF assms(1)] obtain r0
    where r0: "SELECT_first i db = Inr (Some r0)" "id' r0 = word_of_int i"
    by blast
  from UPDATE_refused [OF assms(2)] obtain e
    where "UPDATE fits (new_row (word_of_int i) u) db = Inl e"
    by blast
  then have "update_user fits i u db = (Inl (InternalServerError e), db)"
    by (simp add: update_user_found [OF r0])
  then show ?thesis ..
qed

lemma update_user_accepted:
  assumes "\<exists>r \<in> set (users db). sint (id' r) = i"
    and "\<not> update_refused fits (word_of_int i) u db"
  shows "update_user fits i u db =
     (Inr (200, new_row (word_of_int i) u),
      db\<lparr>users := map (\<lambda>r. if id' r = word_of_int i then new_row (word_of_int i) u else r)
                   (users db)\<rparr>)"
proof -
  from SELECT_first_found [OF assms(1)] obtain r0
    where r0: "SELECT_first i db = Inr (Some r0)" "id' r0 = word_of_int i"
      and mem: "r0 \<in> set (users db)"
    by blast
  from r0(2) mem have ex: "\<exists>r \<in> set (users db). id' r = word_of_int i"
    by blast
  show ?thesis
    by (simp add: update_user_found [OF r0] UPDATE_accepted [OF assms(2)]
        refresh_replaced [OF ex])
qed

lemma update_user_cases:
  "(\<exists>e. update_user fits i u db = (Inl e, db))
   \<or> ((\<exists>r \<in> set (users db). sint (id' r) = i) \<and> \<not> update_refused fits (word_of_int i) u db \<and>
      update_user fits i u db =
       (Inr (200, new_row (word_of_int i) u),
        db\<lparr>users := map (\<lambda>r. if id' r = word_of_int i then new_row (word_of_int i) u else r)
                     (users db)\<rparr>))"
proof (cases "int4 i")
  case False
  then show ?thesis
    by (simp add: update_user_out_of_range)
next
  case range: True
  show ?thesis
  proof (cases "\<exists>r \<in> set (users db). sint (id' r) = i")
    case False
    with range show ?thesis
      by (simp add: update_user_missing)
  next
    case stored: True
    show ?thesis
    proof (cases "update_refused fits (word_of_int i) u db")
      case True
      from update_user_refused [OF stored True] show ?thesis
        by blast
    next
      case False
      from update_user_accepted [OF stored False] stored False show ?thesis
        by blast
    qed
  qed
qed

subsection \<open>The invariant of the reached states\<close>

lemma unique_db_startup: "unique_db startup"
  by (simp add: unique_db_def startup_def)

lemma unique_db_key_fresh:
  assumes "unique_db db" and "users_id_seq db \<le> 2147483647"
  shows "\<forall>r \<in> set (users db). id' r \<noteq> word_of_int (users_id_seq db)"
proof
  fix r assume r: "r \<in> set (users db)"
  from assms have range: "int4 (users_id_seq db)"
    by (simp add: unique_db_def int4_def)
  from assms(1) r have "sint (id' r) < users_id_seq db"
    by (simp add: unique_db_def)
  then show "id' r \<noteq> word_of_int (users_id_seq db)"
    using key_sint [OF range] by auto
qed

lemma INSERT_refused_seq:
  "INSERT fits u db = (Inl e, db1) \<Longrightarrow> users_id_seq db \<le> users_id_seq db1"
  by (auto simp: INSERT_def Let_def split: if_splits)

lemma unique_db_grow:
  "unique_db db \<Longrightarrow> users db1 = users db \<Longrightarrow> users_id_seq db \<le> users_id_seq db1 \<Longrightarrow>
   unique_db db1"
  by (fastforce simp: unique_db_def)

lemma unique_db_create:
  assumes "unique_db db"
  shows "unique_db (snd (create_user fits u db))"
proof (cases "INSERT fits u db")
  case (Pair res db1)
  show ?thesis
  proof (cases res)
    case (Inl e)
    with Pair have ins: "INSERT fits u db = (Inl e, db1)"
      by simp
    then have "snd (create_user fits u db) = ROLLBACK db db1"
      by (simp add: create_user_def)
    moreover have "users (ROLLBACK db db1) = users db"
      by (rule ROLLBACK_users)
    moreover have "users_id_seq db \<le> users_id_seq (ROLLBACK db db1)"
      using INSERT_refused_seq [OF ins] by (simp add: ROLLBACK_def)
    ultimately show ?thesis
      using unique_db_grow [OF assms] by simp
  next
    case (Inr row)
    with Pair have ins: "INSERT fits u db = (Inr row, db1)"
      by simp
    let ?k = "word_of_int (users_id_seq db) :: 32 word"
    from INSERT_accepted [OF ins]
    have db1: "db1 = db\<lparr>users_id_seq := users_id_seq db + 1,
                       users := users db @ [new_row ?k u]\<rparr>"
      and top: "users_id_seq db \<le> 2147483647"
      and key: "\<forall>r \<in> set (users db). id' r \<noteq> ?k"
      and fresh: "\<forall>r \<in> set (users db). email r \<noteq> email u \<and> user r \<noteq> user u"
      by simp_all
    from assms top have "int4 (users_id_seq db)"
      by (simp add: unique_db_def int4_def)
    then have k: "sint ?k = users_id_seq db"
      by (rule key_sint)
    have "unique_db db1"
      unfolding db1 using assms key fresh k
      by (auto simp: unique_db_def new_row_sel)
    with create_user_accepted [OF ins] show ?thesis
      by simp
  qed
qed

lemma distinct_map_replaced:
  assumes "distinct (map id' rs)" and "distinct (map g rs)"
    and "\<forall>r \<in> set rs. id' r \<noteq> k \<longrightarrow> g r \<noteq> g row"
  shows "distinct (map g (map (\<lambda>r. if id' r = k then row else r) rs))"
proof -
  define h where "h r = g (if id' r = k then row else r)" for r
  have "distinct (map h rs)"
    using assms
  proof (induction rs)
    case Nil
    then show ?case by simp
  next
    case (Cons a rs)
    from Cons.prems have ih: "distinct (map h rs)"
      by (intro Cons.IH) auto
    have "h a \<noteq> h r" if r: "r \<in> set rs" for r
    proof (cases "id' a = k")
      case True
      with Cons.prems(1) r have "id' r \<noteq> k"
        by (auto simp: image_iff)
      with Cons.prems(3) r True show ?thesis
        by (auto simp: h_def)
    next
      case False
      show ?thesis
      proof (cases "id' r = k")
        case True
        with False Cons.prems(3) show ?thesis
          by (auto simp: h_def)
      next
        case other: False
        from Cons.prems(2) r have "g a \<noteq> g r"
          by (auto simp: image_iff)
        with False other show ?thesis
          by (simp add: h_def)
      qed
    qed
    then have "h a \<notin> h ` set rs"
      by blast
    with ih show ?case
      by simp
  qed
  moreover have "map g (map (\<lambda>r. if id' r = k then row else r) rs) = map h rs"
    by (simp add: h_def)
  ultimately show ?thesis
    by (simp only:)
qed

lemma unique_db_update:
  assumes "unique_db db"
  shows "unique_db (snd (update_user fits i u db))"
proof -
  let ?k = "word_of_int i :: 32 word"
  let ?f = "\<lambda>r. if id' r = ?k then new_row ?k u else r"
  from update_user_cases [of fits i u db] show ?thesis
  proof
    assume "\<exists>e. update_user fits i u db = (Inl e, db)"
    with assms show ?thesis
      by auto
  next
    assume a: "(\<exists>r \<in> set (users db). sint (id' r) = i) \<and>
      \<not> update_refused fits ?k u db \<and>
      update_user fits i u db = (Inr (200, new_row ?k u), db\<lparr>users := map ?f (users db)\<rparr>)"
    then have free: "\<forall>r \<in> set (users db). id' r \<noteq> ?k \<longrightarrow> email r \<noteq> email u \<and> user r \<noteq> user u"
      by (auto simp: update_refused_def)
    from a obtain r0 where r0: "r0 \<in> set (users db)" "sint (id' r0) = i"
      by blast
    then have k0: "id' r0 = ?k"
      by auto
    from assms have d: "distinct (map id' (users db))" "distinct (map email (users db))"
      "distinct (map user (users db))"
      by (simp_all add: unique_db_def)
    have "distinct (map email (map ?f (users db)))"
      using d(1,2) free by (intro distinct_map_replaced) (simp_all add: new_row_sel)
    moreover have "distinct (map user (map ?f (users db)))"
      using d(1,3) free by (intro distinct_map_replaced) (simp_all add: new_row_sel)
    moreover have "map id' (map ?f (users db)) = map id' (users db)"
      by (rule map_id_replaced) (simp add: new_row_sel)
    moreover have "\<forall>r \<in> set (map ?f (users db)). sint (id' r) < users_id_seq db"
      using assms r0 k0 by (auto simp: unique_db_def new_row_sel)
    ultimately have "unique_db (db\<lparr>users := map ?f (users db)\<rparr>)"
      using assms by (simp add: unique_db_def del: map_map)
    with a show ?thesis
      by simp
  qed
qed

lemma delete_user_cases:
  "delete_user i db = (Inl (InternalServerError DataError), db)
   \<or> delete_user i db = (Inl (HTTPException 404 ''User not found''), db)
   \<or> delete_user i db =
       (Inr (200, [(''message'', ''User deleted successfully'')]),
        db\<lparr>users := filter (\<lambda>r. sint (id' r) \<noteq> i) (users db)\<rparr>)"
proof (cases "int4 i")
  case False
  then show ?thesis
    by (simp add: delete_user_def SELECT_first_out_of_range)
next
  case True
  then show ?thesis
    using delete_user_missing [of i db] delete_user_found [of db i] by blast
qed

lemma unique_db_filter:
  "unique_db db \<Longrightarrow> unique_db (db\<lparr>users := filter P (users db)\<rparr>)"
  by (simp add: unique_db_def distinct_map_filter)

lemma unique_db_delete:
  assumes "unique_db db"
  shows "unique_db (snd (delete_user i db))"
  using delete_user_cases [of i db] assms unique_db_filter [OF assms]
  by auto

lemma read_users_database: "snd (read_users m scan skip limit db) = db"
  by (simp add: read_users_def split: sum.split)

lemma read_user_database: "snd (read_user i db) = db"
  by (simp add: read_user_def split: sum.split option.split)

lemma unique_db_serve: "unique_db db \<Longrightarrow> unique_db (serve fits m scan db req)"
  by (cases req)
    (simp_all add: unique_db_create unique_db_update unique_db_delete
      read_users_database read_user_database)

lemma unique_db_foldl: "unique_db db \<Longrightarrow> unique_db (foldl (serve fits m scan) db reqs)"
  by (induction reqs arbitrary: db) (simp_all add: unique_db_serve)

lemma unique_db_reached: "unique_db (foldl (serve fits m scan) startup reqs)"
  by (rule unique_db_foldl) (rule unique_db_startup)

subsection \<open>Evaluation\<close>

lemmas handler_defs =
  create_user_def INSERT_def refresh_def read_user_def SELECT_first_def int4_def
  update_user_def UPDATE_def delete_user_def DELETE_def ROLLBACK_def read_users_def
  SELECT_page_def Let_def

lemma create_ann_startup:
  "create_user fits2000 ann startup =
     (Inr (201, new_row 1 ann), \<lparr>users = [new_row 1 ann], users_id_seq = 2\<rparr>)"
  by (simp add: handler_defs example_defs)


lemma body_ann_valid: "UserCreate_validate strict_str body_ann = Inr ann"
  by (simp add: UserCreate_validate_def str_field_def body_ann_def ann_def)

lemma has_surrogate_Cons: "a \<noteq> CHR 0xED \<Longrightarrow> has_surrogate (a # s) = has_surrogate s"
  by (cases s) simp_all

lemma has_surrogate_replicate:
  "c \<noteq> CHR 0xED \<Longrightarrow> has_surrogate (replicate n c @ s) = has_surrogate s"
  by (induction n) (simp_all add: has_surrogate_Cons)

lemma refused_examples:
  "fst (create_user fits2000 sur_req db_ann_bob) =
     Inl (HTTPException 400 ''User or Email already exists'')"
  "fst (create_user fits2000 long_req db_ann_bob) =
     Inl (HTTPException 400 ''User or Email already exists'')"
  "fst (update_user fits2000 2 sur_req db_ann_bob) = Inl (InternalServerError UnicodeEncodeError)"
  "fst (update_user fits2000 2 long_req db_ann_bob) =
     Inl (InternalServerError ProgramLimitExceeded)"
  by (simp_all add: handler_defs example_defs has_surrogate_replicate)

subsection \<open>Stored keys and pages\<close>

lemma other_rows_sint:
  assumes "int4 i"
  shows "(\<exists>r \<in> set rs. id' r \<noteq> word_of_int i \<and> P r) \<longleftrightarrow> (\<exists>r \<in> set rs. sint (id' r) \<noteq> i \<and> P r)"
  using key_eq [OF assms] by auto

lemma stored_int4: "\<exists>r \<in> set rs. sint (id' r) = i \<Longrightarrow> int4 i"
  using sint_int4 by auto




subsection \<open>Validation of the body\<close>

lemma UserCreate_validate_ignores:
  assumes "k \<notin> {''name'', ''email'', ''user'', ''password''}"
  shows "UserCreate_validate str_validator (body(k := x)) = UserCreate_validate str_validator body"
proof -
  have f: "str_field str_validator (body(k := x)) f = str_field str_validator body f"
    if "f \<in> {''name'', ''email'', ''user'', ''password''}" for f
    using that assms by (auto simp: str_field_def)
  have "str_field str_validator (body(k := x)) ''name'' = str_field str_validator body ''name''"
    "str_field str_validator (body(k := x)) ''email'' = str_field str_validator body ''email''"
    "str_field str_validator (body(k := x)) ''user'' = str_field str_validator body ''user''"
    "str_field str_validator (body(k := x)) ''password'' =
       str_field str_validator body ''password''"
    by (simp_all add: f)
  then show ?thesis
    unfolding UserCreate_validate_def Let_def by (simp only:)
qed

section \<open>The claims\<close>

subsection \<open>Create\<close>

text \<open>
  Claim C1. A create whose email or handle is already stored fails with status 400 and
  the message \<^verbatim>\<open>User or Email already exists\<close>, and the table is what it was before the
  request, on every database. So when a create has succeeded and a second request has
  its email or its handle, the second is answered 400 and the table has one row more
  than before the two calls, not two.
\<close>

theorem create_user_conflict:
  "((\<exists>r \<in> set (users db). email r = email u \<or> user r = user u) \<longrightarrow>
      fst (create_user fits u db) = Inl (HTTPException 400 ''User or Email already exists'') \<and>
      users (snd (create_user fits u db)) = users db)
   \<and> ((\<exists>x. fst (create_user fits v db) = Inr x) \<and> (email w = email v \<or> user w = user v) \<longrightarrow>
      fst (create_user fits w (snd (create_user fits v db))) =
        Inl (HTTPException 400 ''User or Email already exists'') \<and>
      length (users (snd (create_user fits w (snd (create_user fits v db))))) =
        length (users db) + 1)"
proof (intro conjI impI)
  assume "\<exists>r \<in> set (users db). email r = email u \<or> user r = user u"
  from create_user_collide [OF this]
  show "fst (create_user fits u db) = Inl (HTTPException 400 ''User or Email already exists'')"
    and "users (snd (create_user fits u db)) = users db"
    by simp_all
next
  assume a: "(\<exists>x. fst (create_user fits v db) = Inr x) \<and> (email w = email v \<or> user w = user v)"
  define db1 where "db1 = snd (create_user fits v db)"
  from a create_user_cases [of fits v db]
  have app: "users db1 = users db @ [new_row (word_of_int (users_id_seq db)) v]"
    unfolding db1_def by auto
  from a have "\<exists>r \<in> set (users db1). email r = email w \<or> user r = user w"
    by (auto simp: app new_row_sel)
  from create_user_collide [OF this, of fits]
  have c: "fst (create_user fits w db1) = Inl (HTTPException 400 ''User or Email already exists'')"
    "users (snd (create_user fits w db1)) = users db1"
    by simp_all
  show "fst (create_user fits w (snd (create_user fits v db))) =
        Inl (HTTPException 400 ''User or Email already exists'')"
    using c(1) by (simp add: db1_def)
  show "length (users (snd (create_user fits w (snd (create_user fits v db))))) =
        length (users db) + 1"
    using c(2) app by (simp add: db1_def [symmetric])
qed

theorem create_user_conflict_witness:
  "(fst (create_user fits2000 ann2 db_ann_bob) =
      Inl (HTTPException 400 ''User or Email already exists'') \<and>
    users (snd (create_user fits2000 ann2 db_ann_bob)) = users db_ann_bob) \<and>
   (fst (create_user fits2000 ann2 (snd (create_user fits2000 ann startup))) =
      Inl (HTTPException 400 ''User or Email already exists'') \<and>
    length (users (snd (create_user fits2000 ann2 (snd (create_user fits2000 ann startup))))) =
      length (users startup) + 1)"
proof -
  have h1: "\<exists>r \<in> set (users db_ann_bob). email r = email ann2 \<or> user r = user ann2"
    by (simp add: example_defs)
  have h2: "(\<exists>x. fst (create_user fits2000 ann startup) = Inr x) \<and>
      (email ann2 = email ann \<or> user ann2 = user ann)"
    by (simp add: create_ann_startup) (simp add: example_defs)
  from create_user_conflict [where db = db_ann_bob and u = ann2 and fits = fits2000] h1
    create_user_conflict [where db = startup and v = ann and w = ann2 and fits = fits2000] h2
  show ?thesis
    by blast
qed

text \<open>
  Claim C2 says that every create whose email and handle are not stored succeeds. It
  does not: a request with the character of code 0 in its name, whose email and handle
  are stored nowhere, is refused by the storage; the handler catches the error and
  answers 400, and nothing is stored.
\<close>

theorem create_user_nul_counterexample:
  "email nul_req \<notin> set (map email (users db_ann_bob)) \<and>
   user nul_req \<notin> set (map user (users db_ann_bob)) \<and>
   fst (create_user fits2000 nul_req db_ann_bob) =
     Inl (HTTPException 400 ''User or Email already exists'') \<and>
   users (snd (create_user fits2000 nul_req db_ann_bob)) = users db_ann_bob"
  by (simp add: handler_defs example_defs)

text \<open>
  Claim C2, amended. On a database whose keys, emails and handles are unique and whose
  keys were drawn from the sequence (\<^const>\<open>unique_db\<close>, which holds at startup and
  after every request: \<open>unique_db_reached\<close>), with a key left in the sequence, a create
  whose four values have no lone surrogate and no character of code 0, whose indexed
  values fit an index entry, and whose email and handle are not stored, succeeds with
  status 201. The user returned has the next key of the sequence and the four values of
  the request, and a Get of that key returns the same user.
\<close>

theorem create_user_then_read:
  assumes "text_values u" and "index_rows_fit fits u"
    and "unique_db db" and "users_id_seq db \<le> 2147483647"
    and "\<forall>r \<in> set (users db). email r \<noteq> email u \<and> user r \<noteq> user u"
  shows "\<exists>r. fst (create_user fits u db) = Inr (201, r) \<and>
             sint (id' r) = users_id_seq db \<and>
             name r = name u \<and> email r = email u \<and> user r = user u \<and> password r = password u \<and>
             fst (read_user (sint (id' r)) (snd (create_user fits u db))) = Inr (200, r)"
proof -
  let ?r = "new_row (word_of_int (users_id_seq db)) u"
  from assms(3,4) have key: "\<forall>r \<in> set (users db). id' r \<noteq> word_of_int (users_id_seq db)"
    by (rule unique_db_key_fresh)
  from assms(3,4) have seq: "1 \<le> users_id_seq db \<and> users_id_seq db \<le> 2147483647"
    by (simp add: unique_db_def)
  have c: "create_user fits u db =
     (Inr (201, ?r), db\<lparr>users_id_seq := users_id_seq db + 1, users := users db @ [?r]\<rparr>)"
    by (rule create_user_fresh [OF assms(1,2) seq key assms(5)])
  from seq have "int4 (users_id_seq db)"
    by (simp add: int4_def)
  then have k: "sint (id' ?r) = users_id_seq db"
    by (simp add: new_row_sel key_sint)
  from key have "\<forall>r \<in> set (users db). id' r \<noteq> id' ?r"
    by (simp add: new_row_sel)
  from read_user_last [OF this, where db = db and n = "users_id_seq db + 1"]
  have "fst (read_user (sint (id' ?r)) (snd (create_user fits u db))) = Inr (200, ?r)"
    by (simp add: c)
  with c k show ?thesis
    by (intro exI [of _ ?r]) (simp add: new_row_sel)
qed

theorem create_user_then_read_witness:
  "fst (create_user fits2000 bob (snd (create_user fits2000 ann startup))) =
     Inr (201, new_row 2 bob) \<and>
   fst (read_user 2 (snd (create_user fits2000 bob (snd (create_user fits2000 ann startup))))) =
     Inr (200, new_row 2 bob)"
proof -
  let ?db = "snd (create_user fits2000 ann startup)"
  have db: "?db = \<lparr>users = [new_row 1 ann], users_id_seq = 2\<rparr>"
    by (simp add: create_ann_startup)
  have h1: "text_values bob" and h2: "index_rows_fit fits2000 bob"
    by (simp_all add: example_defs)
  have h3: "unique_db ?db"
    by (rule unique_db_create) (rule unique_db_startup)
  have h4: "users_id_seq ?db \<le> 2147483647"
    by (simp add: db)
  have h5: "\<forall>r \<in> set (users ?db). email r \<noteq> email bob \<and> user r \<noteq> user bob"
    by (simp add: db) (simp add: example_defs)
  from create_user_then_read [OF h1 h2 h3 h4 h5] obtain r where
    r: "fst (create_user fits2000 bob ?db) = Inr (201, r)" "sint (id' r) = users_id_seq ?db"
      "name r = name bob" "email r = email bob" "user r = user bob" "password r = password bob"
      "fst (read_user (sint (id' r)) (snd (create_user fits2000 bob ?db))) = Inr (200, r)"
    by blast
  from r(2) have s: "sint (id' r) = 2"
    by (simp add: db)
  then have "id' r = 2"
    using key_of_sint [OF s] by simp
  with r(3-6) have "r = new_row 2 bob"
    unfolding new_row_def by (cases r) simp
  with r(1,7) s show ?thesis
    by simp
qed

text \<open>
  Claim C9. The body of a create cannot set the key. The route gives the same outcome
  and the same database whatever the body has as its \<^verbatim>\<open>id\<close> member, or with none; and
  when the outcome is a success its status is 201 and the key of the user returned is
  the value the sequence had next.
\<close>

theorem POST_users_ignores_id:
  "POST_users str_validator fits (body(''id'' := x)) db = POST_users str_validator fits body db
   \<and> (\<forall>st r. fst (POST_users str_validator fits body db) = Inr (st, r) \<longrightarrow>
        st = 201 \<and> sint (id' r) = users_id_seq db)"
proof (rule conjI, goal_cases)
  case 1
  have "UserCreate_validate str_validator (body(''id'' := x)) =
        UserCreate_validate str_validator body"
    by (rule UserCreate_validate_ignores) simp
  then show "POST_users str_validator fits (body(''id'' := x)) db =
             POST_users str_validator fits body db"
    by (simp add: POST_users_def)
next
  case 2
  show ?case
  proof (intro allI impI)
    fix st r assume a: "fst (POST_users str_validator fits body db) = Inr (st, r)"
    show "st = 201 \<and> sint (id' r) = users_id_seq db"
    proof (cases "UserCreate_validate str_validator body")
      case (Inl errs)
      with a show ?thesis
        by (simp add: POST_users_def)
    next
      case (Inr u)
      with a have "fst (create_user fits u db) = Inr (st, r)"
        by (simp add: POST_users_def)
      with create_user_cases [of fits u db] show ?thesis
        by (auto simp: new_row_sel key_sint int4_def)
    qed
  qed
qed

theorem POST_users_ignores_id_witness:
  "POST_users strict_str fits2000 (body_ann(''id'' \<mapsto> JSON_number 77)) db_ann_bob =
     POST_users strict_str fits2000 body_ann db_ann_bob \<and>
   fst (POST_users strict_str fits2000 (body_ann(''id'' \<mapsto> JSON_number 77)) startup) =
     Inr (201, new_row 1 ann)"
proof -
  have p: "fst (POST_users strict_str fits2000 body_ann startup) = Inr (201, new_row 1 ann)"
    by (simp add: POST_users_def body_ann_valid create_ann_startup)
  from POST_users_ignores_id [of strict_str fits2000 body_ann "Some (JSON_number 77)" db_ann_bob]
  have "POST_users strict_str fits2000 (body_ann(''id'' \<mapsto> JSON_number 77)) db_ann_bob =
     POST_users strict_str fits2000 body_ann db_ann_bob"
    by blast
  moreover
  from POST_users_ignores_id [of strict_str fits2000 body_ann "Some (JSON_number 77)" startup] p
  have "POST_users strict_str fits2000 (body_ann(''id'' \<mapsto> JSON_number 77)) startup =
     POST_users strict_str fits2000 body_ann startup \<and> (201::int) = 201 \<and>
     sint (id' (new_row 1 ann)) = users_id_seq startup"
    by blast
  ultimately show ?thesis
    using p by simp
qed

subsection \<open>Failed writes\<close>

text \<open>
  Claim C3. A create or an update that fails, with whatever exception, leaves the rows
  of the table as they were. In particular a create whose email or handle is stored
  fails, and so does an update of a stored user to an email or a handle that another
  stored user has.
\<close>

theorem failed_write_leaves_table:
  "(\<forall>e. fst (create_user fits u db) = Inl e \<longrightarrow> users (snd (create_user fits u db)) = users db)
   \<and> (\<forall>e. fst (update_user fits i u db) = Inl e \<longrightarrow>
        users (snd (update_user fits i u db)) = users db)
   \<and> ((\<exists>r \<in> set (users db). email r = email u \<or> user r = user u) \<longrightarrow>
        (\<exists>e. fst (create_user fits u db) = Inl e))
   \<and> ((\<exists>r \<in> set (users db). sint (id' r) = i) \<and>
       (\<exists>r \<in> set (users db). sint (id' r) \<noteq> i \<and> (email r = email u \<or> user r = user u)) \<longrightarrow>
        (\<exists>e. fst (update_user fits i u db) = Inl e))"
proof (intro conjI allI impI)
  fix e assume "fst (create_user fits u db) = Inl e"
  with create_user_cases [of fits u db] show "users (snd (create_user fits u db)) = users db"
    by auto
next
  fix e assume "fst (update_user fits i u db) = Inl e"
  with update_user_cases [of fits i u db] show "users (snd (update_user fits i u db)) = users db"
    by auto
next
  assume "\<exists>r \<in> set (users db). email r = email u \<or> user r = user u"
  from create_user_collide [OF this, of fits] show "\<exists>e. fst (create_user fits u db) = Inl e"
    by simp
next
  assume a: "(\<exists>r \<in> set (users db). sint (id' r) = i) \<and>
       (\<exists>r \<in> set (users db). sint (id' r) \<noteq> i \<and> (email r = email u \<or> user r = user u))"
  then have stored: "\<exists>r \<in> set (users db). sint (id' r) = i"
    by simp
  then have "int4 i"
    by (rule stored_int4)
  from a other_rows_sint [OF this, of "users db" "\<lambda>r. email r = email u \<or> user r = user u"]
  have "update_refused fits (word_of_int i) u db"
    by (simp add: update_refused_def)
  from update_user_refused [OF stored this] show "\<exists>e. fst (update_user fits i u db) = Inl e"
    by auto
qed

theorem failed_write_leaves_table_witness:
  "(users (snd (create_user fits2000 ann2 db_ann_bob)) = users db_ann_bob \<and>
    users (snd (update_user fits2000 2 ann2 db_ann_bob)) = users db_ann_bob \<and>
    (\<exists>e. fst (create_user fits2000 ann2 db_ann_bob) = Inl e) \<and>
    (\<exists>e. fst (update_user fits2000 2 ann2 db_ann_bob) = Inl e)) \<and>
   (fst (create_user fits2000 sur_req db_ann_bob) =
      Inl (HTTPException 400 ''User or Email already exists'') \<and>
    users (snd (create_user fits2000 sur_req db_ann_bob)) = users db_ann_bob \<and>
    fst (update_user fits2000 2 sur_req db_ann_bob) =
      Inl (InternalServerError UnicodeEncodeError) \<and>
    users (snd (update_user fits2000 2 sur_req db_ann_bob)) = users db_ann_bob) \<and>
   (fst (create_user fits2000 long_req db_ann_bob) =
      Inl (HTTPException 400 ''User or Email already exists'') \<and>
    users (snd (create_user fits2000 long_req db_ann_bob)) = users db_ann_bob \<and>
    fst (update_user fits2000 2 long_req db_ann_bob) =
      Inl (InternalServerError ProgramLimitExceeded) \<and>
    users (snd (update_user fits2000 2 long_req db_ann_bob)) = users db_ann_bob)"
proof -
  have h1: "\<exists>r \<in> set (users db_ann_bob). email r = email ann2 \<or> user r = user ann2"
    by (simp add: example_defs)
  have h2: "(\<exists>r \<in> set (users db_ann_bob). sint (id' r) = 2) \<and>
       (\<exists>r \<in> set (users db_ann_bob). sint (id' r) \<noteq> 2 \<and>
          (email r = email ann2 \<or> user r = user ann2))"
    by (simp add: example_defs)
  from failed_write_leaves_table [of fits2000 ann2 db_ann_bob 2] h1 h2
  have "users (snd (create_user fits2000 ann2 db_ann_bob)) = users db_ann_bob \<and>
    users (snd (update_user fits2000 2 ann2 db_ann_bob)) = users db_ann_bob \<and>
    (\<exists>e. fst (create_user fits2000 ann2 db_ann_bob) = Inl e) \<and>
    (\<exists>e. fst (update_user fits2000 2 ann2 db_ann_bob) = Inl e)"
    by blast
  moreover
  from failed_write_leaves_table [of fits2000 sur_req db_ann_bob 2] refused_examples(1,3)
  have "users (snd (create_user fits2000 sur_req db_ann_bob)) = users db_ann_bob \<and>
    users (snd (update_user fits2000 2 sur_req db_ann_bob)) = users db_ann_bob"
    by blast
  moreover
  from failed_write_leaves_table [of fits2000 long_req db_ann_bob 2] refused_examples(2,4)
  have "users (snd (create_user fits2000 long_req db_ann_bob)) = users db_ann_bob \<and>
    users (snd (update_user fits2000 2 long_req db_ann_bob)) = users db_ann_bob"
    by blast
  ultimately show ?thesis
    using refused_examples by simp
qed

subsection \<open>Update\<close>

text \<open>
  Claim C4 says that an update of an existing user with any payload replaces the four
  fields. It does not: user 2 exists, and an update of user 2 to the email of user 1 is
  refused by the unique index; nothing catches the error, the response has status 500,
  and a Get of user 2 returns the old values.
\<close>

theorem update_user_collision_counterexample:
  "fst (read_user 2 db_ann_bob) = Inr (200, new_row 2 bob) \<and>
   fst (update_user fits2000 2 ann2 db_ann_bob) =
     Inl (InternalServerError (UniqueViolation ''ix_users_email'')) \<and>
   status_code (InternalServerError (UniqueViolation ''ix_users_email'')) = 500 \<and>
   fst (read_user 2 (snd (update_user fits2000 2 ann2 db_ann_bob))) = Inr (200, new_row 2 bob)"
  by (simp add: handler_defs example_defs)

text \<open>
  Claim C4, amended. An update of a stored user to four values that have no lone
  surrogate and no character of code 0, whose indexed values fit an index entry, and
  whose email and handle no other stored user has, succeeds with status 200; the user
  returned has the same key and the four new values, and a Get of that key afterwards
  returns the same user. An update of a key that PostgreSQL's \<^verbatim>\<open>integer\<close> has and
  no stored user has fails with status 404 and the message \<^verbatim>\<open>User not found\<close>, and
  leaves the database as it was.
\<close>

theorem update_user_then_read:
  "((\<exists>r \<in> set (users db). sint (id' r) = i) \<and> text_values u \<and> index_rows_fit fits u \<and>
    (\<forall>r \<in> set (users db). sint (id' r) \<noteq> i \<longrightarrow> email r \<noteq> email u \<and> user r \<noteq> user u) \<longrightarrow>
      (\<exists>r. fst (update_user fits i u db) = Inr (200, r) \<and> sint (id' r) = i \<and>
           name r = name u \<and> email r = email u \<and> user r = user u \<and> password r = password u \<and>
           fst (read_user i (snd (update_user fits i u db))) = Inr (200, r)))
   \<and> (int4 i \<and> (\<forall>r \<in> set (users db). sint (id' r) \<noteq> i) \<longrightarrow>
      update_user fits i u db = (Inl (HTTPException 404 ''User not found''), db))"
proof (intro conjI impI)
  let ?k = "word_of_int i :: 32 word"
  let ?db1 = "db\<lparr>users := map (\<lambda>r. if id' r = ?k then new_row ?k u else r) (users db)\<rparr>"
  assume a: "(\<exists>r \<in> set (users db). sint (id' r) = i) \<and> text_values u \<and>
    index_rows_fit fits u \<and>
    (\<forall>r \<in> set (users db). sint (id' r) \<noteq> i \<longrightarrow> email r \<noteq> email u \<and> user r \<noteq> user u)"
  then have stored: "\<exists>r \<in> set (users db). sint (id' r) = i"
    by simp
  then have range: "int4 i"
    by (rule stored_int4)
  from a other_rows_sint [OF range, of "users db" "\<lambda>r. email r = email u \<or> user r = user u"]
  have "\<not> update_refused fits ?k u db"
    by (auto simp: update_refused_def)
  from update_user_accepted [OF stored this]
  have upd: "update_user fits i u db = (Inr (200, new_row ?k u), ?db1)" .
  from stored have "\<exists>r \<in> set (users db). id' r = ?k"
    by auto
  then have "find (\<lambda>r. id' r = ?k) (users ?db1) = Some (new_row ?k u)"
    by (simp add: find_map_replaced new_row_sel)
  with range have "read_user i ?db1 = (Inr (200, new_row ?k u), ?db1)"
    by (simp add: read_user_def SELECT_first_def)
  with upd range
  show "\<exists>r. fst (update_user fits i u db) = Inr (200, r) \<and> sint (id' r) = i \<and>
           name r = name u \<and> email r = email u \<and> user r = user u \<and> password r = password u \<and>
           fst (read_user i (snd (update_user fits i u db))) = Inr (200, r)"
    by (intro exI [of _ "new_row ?k u"]) (simp add: new_row_sel key_sint)
next
  assume "int4 i \<and> (\<forall>r \<in> set (users db). sint (id' r) \<noteq> i)"
  then show "update_user fits i u db = (Inl (HTTPException 404 ''User not found''), db)"
    by (simp add: update_user_missing)
qed

theorem update_user_then_read_witness:
  "(fst (update_user fits2000 2 rob db_ann_bob) = Inr (200, new_row 2 rob) \<and>
    fst (read_user 2 (snd (update_user fits2000 2 rob db_ann_bob))) = Inr (200, new_row 2 rob)) \<and>
   update_user fits2000 999999 rob db_ann_bob =
     (Inl (HTTPException 404 ''User not found''), db_ann_bob)"
proof -
  have h1: "(\<exists>r \<in> set (users db_ann_bob). sint (id' r) = 2) \<and> text_values rob \<and>
    index_rows_fit fits2000 rob \<and>
    (\<forall>r \<in> set (users db_ann_bob). sint (id' r) \<noteq> 2 \<longrightarrow>
       email r \<noteq> email rob \<and> user r \<noteq> user rob)"
    by (simp add: example_defs)
  have h2: "int4 999999 \<and> (\<forall>r \<in> set (users db_ann_bob). sint (id' r) \<noteq> 999999)"
    by (simp add: example_defs int4_def)
  from update_user_then_read [of db_ann_bob 2 rob fits2000] h1 obtain r where
    r: "fst (update_user fits2000 2 rob db_ann_bob) = Inr (200, r)" "sint (id' r) = 2"
      "name r = name rob" "email r = email rob" "user r = user rob" "password r = password rob"
      "fst (read_user 2 (snd (update_user fits2000 2 rob db_ann_bob))) = Inr (200, r)"
    by blast
  from key_of_sint [OF r(2)] have "id' r = 2"
    by simp
  with r(3-6) have "r = new_row 2 rob"
    unfolding new_row_def by (cases r) simp
  with r(1,7) update_user_then_read [of db_ann_bob 999999 rob fits2000] h2 show ?thesis
    by blast
qed

text \<open>
  Claim C8. A successful update of the user of key \<open>i\<close> leaves every other row as it
  was: the rows of the other keys are the same rows in the same order, the keys of the
  table are the same, and the sequence has the same value.
\<close>

theorem update_user_frame:
  "fst (update_user fits i u db) = Inr x \<longrightarrow>
     filter (\<lambda>r. sint (id' r) \<noteq> i) (users (snd (update_user fits i u db))) =
       filter (\<lambda>r. sint (id' r) \<noteq> i) (users db) \<and>
     map id' (users (snd (update_user fits i u db))) = map id' (users db) \<and>
     users_id_seq (snd (update_user fits i u db)) = users_id_seq db"
proof
  let ?k = "word_of_int i :: 32 word"
  assume "fst (update_user fits i u db) = Inr x"
  with update_user_cases [of fits i u db]
  have stored: "\<exists>r \<in> set (users db). sint (id' r) = i"
    and upd: "update_user fits i u db =
     (Inr (200, new_row ?k u),
      db\<lparr>users := map (\<lambda>r. if id' r = ?k then new_row ?k u else r) (users db)\<rparr>)"
    by auto
  from stored have range: "int4 i"
    by (rule stored_int4)
  have "filter (\<lambda>r. id' r \<noteq> ?k) (map (\<lambda>r. if id' r = ?k then new_row ?k u else r) (users db)) =
        filter (\<lambda>r. id' r \<noteq> ?k) (users db)"
    by (rule filter_others_map) (simp add: new_row_sel)
  then have "filter (\<lambda>r. sint (id' r) \<noteq> i)
               (map (\<lambda>r. if id' r = ?k then new_row ?k u else r) (users db)) =
             filter (\<lambda>r. sint (id' r) \<noteq> i) (users db)"
    by (simp only: filter_key_sint [OF range])
  moreover have "map id' (map (\<lambda>r. if id' r = ?k then new_row ?k u else r) (users db)) =
                 map id' (users db)"
    by (rule map_id_replaced) (simp add: new_row_sel)
  ultimately
  show "filter (\<lambda>r. sint (id' r) \<noteq> i) (users (snd (update_user fits i u db))) =
       filter (\<lambda>r. sint (id' r) \<noteq> i) (users db) \<and>
     map id' (users (snd (update_user fits i u db))) = map id' (users db) \<and>
     users_id_seq (snd (update_user fits i u db)) = users_id_seq db"
    by (simp add: upd del: map_map)
qed

theorem update_user_frame_witness:
  "filter (\<lambda>r. sint (id' r) \<noteq> 2) (users (snd (update_user fits2000 2 rob db_ann_bob))) =
     [new_row 1 ann] \<and>
   map id' (users (snd (update_user fits2000 2 rob db_ann_bob))) = [1, 2] \<and>
   users_id_seq (snd (update_user fits2000 2 rob db_ann_bob)) = 3"
proof -
  have h: "fst (update_user fits2000 2 rob db_ann_bob) = Inr (200, new_row 2 rob)"
    by (simp add: handler_defs example_defs)
  from update_user_frame [of fits2000 2 rob db_ann_bob "(200, new_row 2 rob)"] h
  have "filter (\<lambda>r. sint (id' r) \<noteq> 2) (users (snd (update_user fits2000 2 rob db_ann_bob))) =
          filter (\<lambda>r. sint (id' r) \<noteq> 2) (users db_ann_bob) \<and>
        map id' (users (snd (update_user fits2000 2 rob db_ann_bob))) = map id' (users db_ann_bob) \<and>
        users_id_seq (snd (update_user fits2000 2 rob db_ann_bob)) = users_id_seq db_ann_bob"
    by blast
  then show ?thesis
    by (simp add: db_ann_bob_def new_row_def)
qed

subsection \<open>Get\<close>

text \<open>
  Claim C5 says that a Get of a key that no user has fails with status 404. It does not
  for every key: no user has the key 2147483648, which is above the largest
  \<^verbatim>\<open>integer\<close> of PostgreSQL; the driver refuses to encode it, nothing catches the error,
  and the response has status 500.
\<close>

theorem read_user_out_of_range_counterexample:
  "2147483648 \<notin> set (map (\<lambda>r. sint (id' r)) (users db_ann_bob)) \<and>
   fst (read_user 2147483648 db_ann_bob) = Inl (InternalServerError DataError) \<and>
   status_code (InternalServerError DataError) = 500"
  by (simp add: handler_defs example_defs)

text \<open>
  Claim C5, amended. For a key that PostgreSQL's \<^verbatim>\<open>integer\<close> has, a Get fails with
  status 404 and the message \<^verbatim>\<open>User not found\<close> if and only if no stored user has the
  key. For every key that a stored user has, it returns, with status 200, a stored user
  of that key.
\<close>

theorem read_user_not_found_iff:
  "(int4 user_id \<longrightarrow>
      (fst (read_user user_id db) = Inl (HTTPException 404 ''User not found'')
        \<longleftrightarrow> (\<forall>r \<in> set (users db). sint (id' r) \<noteq> user_id)))
   \<and> ((\<exists>r \<in> set (users db). sint (id' r) = user_id) \<longrightarrow>
        (\<exists>r \<in> set (users db). sint (id' r) = user_id \<and>
           fst (read_user user_id db) = Inr (200, r)))"
proof (intro conjI impI)
  assume range: "int4 user_id"
  show "fst (read_user user_id db) = Inl (HTTPException 404 ''User not found'')
        \<longleftrightarrow> (\<forall>r \<in> set (users db). sint (id' r) \<noteq> user_id)"
  proof (cases "\<exists>r \<in> set (users db). sint (id' r) = user_id")
    case True
    from read_user_found [OF True] True show ?thesis
      by auto
  next
    case False
    with read_user_missing [OF range, of db] show ?thesis
      by simp
  qed
next
  assume "\<exists>r \<in> set (users db). sint (id' r) = user_id"
  from read_user_found [OF this]
  show "\<exists>r \<in> set (users db). sint (id' r) = user_id \<and> fst (read_user user_id db) = Inr (200, r)"
    by auto
qed

theorem read_user_not_found_iff_witness:
  "fst (read_user 2 db_ann_bob) = Inr (200, new_row 2 bob) \<and>
   fst (read_user 999999 db_ann_bob) = Inl (HTTPException 404 ''User not found'')"
proof -
  have h0: "int4 999999"
    by (simp add: int4_def)
  have h1: "\<exists>r \<in> set (users db_ann_bob). sint (id' r) = 2"
    by (simp add: example_defs)
  have h2: "\<forall>r \<in> set (users db_ann_bob). sint (id' r) \<noteq> 999999"
    by (simp add: example_defs)
  from read_user_not_found_iff [of 2 db_ann_bob] h1
  obtain r where r: "r \<in> set (users db_ann_bob)" "sint (id' r) = 2"
    "fst (read_user 2 db_ann_bob) = Inr (200, r)"
    by blast
  from r(1,2) have "r = new_row 2 bob"
    by (auto simp: db_ann_bob_def new_row_def)
  moreover from read_user_not_found_iff [of 999999 db_ann_bob] h0 h2
  have "fst (read_user 999999 db_ann_bob) = Inl (HTTPException 404 ''User not found'')"
    by blast
  ultimately show ?thesis
    using r(3) by simp
qed

subsection \<open>Delete\<close>

text \<open>
  Claim C6. A Delete of the key of a stored user returns the confirmation message and
  removes the rows of that key, leaving the others. Afterwards a Get of the key fails
  with status 404, and a second Delete fails with status 404 and leaves the database as
  it is, so that every later Delete fails in the same way.
\<close>

theorem delete_user_then_not_found:
  assumes "\<exists>r \<in> set (users db). sint (id' r) = user_id"
  shows "fst (delete_user user_id db) = Inr (200, [(''message'', ''User deleted successfully'')]) \<and>
         users (snd (delete_user user_id db)) =
           filter (\<lambda>r. sint (id' r) \<noteq> user_id) (users db) \<and>
         fst (read_user user_id (snd (delete_user user_id db))) =
           Inl (HTTPException 404 ''User not found'') \<and>
         delete_user user_id (snd (delete_user user_id db)) =
           (Inl (HTTPException 404 ''User not found''), snd (delete_user user_id db))"
proof -
  let ?db1 = "db\<lparr>users := filter (\<lambda>r. sint (id' r) \<noteq> user_id) (users db)\<rparr>"
  have d: "delete_user user_id db =
     (Inr (200, [(''message'', ''User deleted successfully'')]), ?db1)"
    using assms by (rule delete_user_found)
  from assms have range: "int4 user_id"
    by (rule stored_int4)
  have gone: "\<forall>r \<in> set (users ?db1). sint (id' r) \<noteq> user_id"
    by simp
  show ?thesis
    using d read_user_missing [OF range gone] delete_user_missing [OF range gone] by simp
qed

theorem delete_user_then_not_found_witness:
  "fst (delete_user 1 db_ann_bob) = Inr (200, [(''message'', ''User deleted successfully'')]) \<and>
   users (snd (delete_user 1 db_ann_bob)) = [new_row 2 bob] \<and>
   fst (read_user 1 (snd (delete_user 1 db_ann_bob))) = Inl (HTTPException 404 ''User not found'') \<and>
   fst (delete_user 1 (snd (delete_user 1 db_ann_bob))) = Inl (HTTPException 404 ''User not found'')"
proof -
  have h: "\<exists>r \<in> set (users db_ann_bob). sint (id' r) = 1"
    by (simp add: example_defs)
  from delete_user_then_not_found [OF h] show ?thesis
    by (simp add: db_ann_bob_def new_row_def)
qed

subsection \<open>List\<close>




subsection \<open>Reads\<close>

text \<open>
  Claim C10. List and Get leave the database as it was, for every database and all
  arguments, whether they return or raise.
\<close>

theorem reads_leave_database:
  "snd (read_users rowcount_max scan skip limit db) = db \<and> snd (read_user user_id db) = db"
  by (simp add: read_users_def read_user_def split: sum.split option.split)

end
